theory Spec2Isabelle
  imports Complex_Main
begin

section \<open>JavaScript values used by the helpers\<close>

text \<open>
  The helpers of \<^verbatim>\<open>src/utils/helpers.js\<close> turn pincode strings into numbers with
  \<^verbatim>\<open>parseInt\<close> and compute with them. Every number that occurs there is an
  integer-valued IEEE double, an infinity or NaN, so a JavaScript number is modelled by
  the datatype below, and the conversion of a mathematical integer into a double
  (round to nearest, ties to even, 53 bits of mantissa, overflow to an infinity at
  \<open>2 ^ 1024\<close>) is written out in \<open>toNumber\<close>.

  A string is a list of code units below 256 (\<open>char list\<close>).
\<close>

datatype jsnum = NaN | PosInf | NegInf | Num int

function bit_length :: "int \<Rightarrow> nat" where
  "bit_length n = (if n \<le> 0 then 0 else Suc (bit_length (n div 2)))"
  by pat_completeness auto
termination
  by (relation "measure nat") auto

declare bit_length.simps [simp del]

definition toNumber :: "int \<Rightarrow> jsnum" where
  "toNumber n =
     (let a = \<bar>n\<bar> in
      if a < 2 ^ 53 then Num n
      else
        let e = bit_length a - 53;
            q = a div 2 ^ e;
            r = a mod 2 ^ e;
            h = 2 ^ (e - 1);
            q' = (if h < r \<or> (r = h \<and> odd q) then q + 1 else q);
            m = q' * 2 ^ e
        in if 2 ^ 1024 \<le> m then (if n < 0 then NegInf else PosInf)
           else Num (if n < 0 then - m else m))"

definition isNaN :: "jsnum \<Rightarrow> bool" where
  "isNaN x = (x = NaN)"

definition js_minus :: "jsnum \<Rightarrow> jsnum \<Rightarrow> jsnum" where
  "js_minus x y =
     (case x of
        NaN \<Rightarrow> NaN
      | PosInf \<Rightarrow> (case y of NaN \<Rightarrow> NaN | PosInf \<Rightarrow> NaN | _ \<Rightarrow> PosInf)
      | NegInf \<Rightarrow> (case y of NaN \<Rightarrow> NaN | NegInf \<Rightarrow> NaN | _ \<Rightarrow> NegInf)
      | Num a \<Rightarrow>
          (case y of NaN \<Rightarrow> NaN | PosInf \<Rightarrow> NegInf | NegInf \<Rightarrow> PosInf
           | Num b \<Rightarrow> toNumber (a - b)))"

definition js_abs :: "jsnum \<Rightarrow> jsnum" where
  "js_abs x = (case x of NaN \<Rightarrow> NaN | PosInf \<Rightarrow> PosInf | NegInf \<Rightarrow> PosInf | Num a \<Rightarrow> Num \<bar>a\<bar>)"

text \<open>The remainder \<^verbatim>\<open>x % k\<close> for a positive integer \<open>k\<close>: the sign of the dividend.\<close>

definition js_rem :: "jsnum \<Rightarrow> int \<Rightarrow> jsnum" where
  "js_rem x k =
     (case x of
        Num a \<Rightarrow> Num (if a < 0 then - (\<bar>a\<bar> mod k) else a mod k)
      | _ \<Rightarrow> NaN)"

text \<open>\<^verbatim>\<open>Math.max(x, k)\<close> for an integer \<open>k\<close>.\<close>

definition js_max :: "jsnum \<Rightarrow> int \<Rightarrow> jsnum" where
  "js_max x k =
     (case x of NaN \<Rightarrow> NaN | PosInf \<Rightarrow> PosInf | NegInf \<Rightarrow> Num k | Num a \<Rightarrow> Num (max a k))"

subsection \<open>parseInt on a string\<close>

text \<open>
  \<^verbatim>\<open>parseInt(s)\<close> with no radix: leading white space is skipped, one sign is read, a
  prefix \<^verbatim>\<open>0x\<close> or \<^verbatim>\<open>0X\<close> selects radix 16, the longest prefix of digits is read and
  the rest of the string is ignored; with no digit the result is NaN. The value is the
  exact integer, rounded to a double.
\<close>

definition isWhiteSpace :: "char \<Rightarrow> bool" where
  "isWhiteSpace c = ((of_char c :: int) \<in> {9, 10, 11, 12, 13, 32, 160})"

definition digitOf :: "int \<Rightarrow> char \<Rightarrow> int option" where
  "digitOf R c =
     (let n = (of_char c :: int) in
      if 48 \<le> n \<and> n \<le> 57 then Some (n - 48)
      else if R = 16 \<and> 97 \<le> n \<and> n \<le> 102 then Some (n - 87)
      else if R = 16 \<and> 65 \<le> n \<and> n \<le> 70 then Some (n - 55)
      else None)"

fun digitsPrefix :: "int \<Rightarrow> string \<Rightarrow> int list" where
  "digitsPrefix R [] = []"
| "digitsPrefix R (c # cs) =
     (case digitOf R c of None \<Rightarrow> [] | Some d \<Rightarrow> d # digitsPrefix R cs)"

definition mathInt :: "int \<Rightarrow> int list \<Rightarrow> int" where
  "mathInt R ds = foldl (\<lambda>acc d. acc * R + d) 0 ds"

definition parseInt :: "string \<Rightarrow> jsnum" where
  "parseInt str =
     (let s = dropWhile isWhiteSpace str;
          neg = (take 1 s = ''-'');
          s1 = (if take 1 s = ''+'' \<or> take 1 s = ''-'' then drop 1 s else s);
          hex = (take 2 s1 = ''0x'' \<or> take 2 s1 = ''0X'');
          R = (if hex then 16 else 10);
          Z = digitsPrefix R (if hex then drop 2 s1 else s1)
      in if Z = [] then NaN
         else toNumber ((if neg then - 1 else 1) * mathInt R Z))"

section \<open>Duration estimate (helpers.js, calculateRideDuration)\<close>

text \<open>
  The body runs inside \<^verbatim>\<open>try\<close>: when either pincode parses to NaN the function throws,
  the \<^verbatim>\<open>catch\<close> block returns 2. Nothing else in the body throws on strings.
\<close>

definition calculateRideDuration :: "string \<Rightarrow> string \<Rightarrow> jsnum" where
  "calculateRideDuration fromPincode toPincode =
     (let from = parseInt fromPincode;
          to = parseInt toPincode
      in if isNaN from \<or> isNaN to then Num 2
         else
           let duration = js_rem (js_abs (js_minus from to)) 24
           in js_max duration 1)"


section \<open>Documents (models/Vehicle.js, models/Booking.js)\<close>

text \<open>
  An ObjectId is a natural number. A Date is its time value, the number of
  milliseconds since the epoch; a time value outside the range of \<open>validDate\<close> stands
  for an Invalid Date. The fields \<^verbatim>\<open>createdAt\<close> and \<^verbatim>\<open>updatedAt\<close> are left out:
  none of the operations below reads them. The schemas' \<^verbatim>\<open>Number\<close> fields are rational
  numbers (every finite double is one).
\<close>

type_synonym objectId = nat
type_synonym date = int

datatype vehicle_status = Active | Maintenance | Retired

datatype booking_status = Confirmed | InProgress | Completed | Cancelled

record vehicle =
  vid :: objectId
  name :: string
  capacityKg :: rat
  tyres :: rat
  vstatus :: vehicle_status

record booking =
  bid :: objectId
  vehicleId :: objectId
  customerId :: string
  fromPincode :: string
  toPincode :: string
  startTime :: date
  endTime :: date
  estimatedRideDurationHours :: int
  status :: booking_status
  totalCost :: rat

definition validDate :: "date \<Rightarrow> bool" where
  "validDate t = (\<bar>t\<bar> \<le> 8640000000000000)"

subsection \<open>Booking.overlapsWithTimeWindow\<close>

definition overlapsWithTimeWindow :: "booking \<Rightarrow> date \<Rightarrow> date \<Rightarrow> bool" where
  "overlapsWithTimeWindow this startTime' endTime' =
     (startTime' < endTime this \<and> endTime' > startTime this)"


subsection \<open>Mongo filters over the bookings collection\<close>

text \<open>
  \<^verbatim>\<open>Booking.find(query)\<close> takes a filter object. The filters of this repository use
  equality, \<^verbatim>\<open>$in\<close>, \<^verbatim>\<open>$lt\<close>, \<^verbatim>\<open>$gt\<close>, \<^verbatim>\<open>$ne\<close> and one \<^verbatim>\<open>$or\<close> of conjunctions; a
  filter is the list of its clauses and a document matches when every clause holds.
  \<^verbatim>\<open>$lt\<close> and \<^verbatim>\<open>$gt\<close> compare dates with dates only.
\<close>

datatype field = F_id | F_vehicleId | F_status | F_startTime | F_endTime

datatype fvalue = ObjectId objectId | Status booking_status | Date date

datatype condition = Eq fvalue | In "fvalue list" | Lt fvalue | Gt fvalue | Ne fvalue

datatype clause = Field field condition | Or "(field \<times> condition) list list"

fun fieldOf :: "booking \<Rightarrow> field \<Rightarrow> fvalue" where
  "fieldOf b F_id = ObjectId (bid b)"
| "fieldOf b F_vehicleId = ObjectId (vehicleId b)"
| "fieldOf b F_status = Status (status b)"
| "fieldOf b F_startTime = Date (startTime b)"
| "fieldOf b F_endTime = Date (endTime b)"

fun lessValue :: "fvalue \<Rightarrow> fvalue \<Rightarrow> bool" where
  "lessValue (Date a) (Date b) = (a < b)"
| "lessValue _ _ = False"

fun holds :: "fvalue \<Rightarrow> condition \<Rightarrow> bool" where
  "holds v (Eq w) = (v = w)"
| "holds v (In ws) = (v \<in> set ws)"
| "holds v (Lt w) = lessValue v w"
| "holds v (Gt w) = lessValue w v"
| "holds v (Ne w) = (v \<noteq> w)"

definition matchesAll :: "booking \<Rightarrow> (field \<times> condition) list \<Rightarrow> bool" where
  "matchesAll b cs = list_all (\<lambda>(f, c). holds (fieldOf b f) c) cs"

fun matchesClause :: "booking \<Rightarrow> clause \<Rightarrow> bool" where
  "matchesClause b (Field f c) = holds (fieldOf b f) c"
| "matchesClause b (Or alternatives) = list_ex (matchesAll b) alternatives"

definition findBookings :: "clause list \<Rightarrow> booking list \<Rightarrow> booking list" where
  "findBookings query collection = filter (\<lambda>b. list_all (matchesClause b) query) collection"

subsection \<open>Booking.findOverlappingBookings\<close>

text \<open>
  The parameter \<^verbatim>\<open>excludeBookingId\<close> defaults to \<^verbatim>\<open>null\<close>; the clause on \<^verbatim>\<open>_id\<close> is added
  when it is truthy, which every ObjectId is.
\<close>

definition findOverlappingBookings ::
  "booking list \<Rightarrow> objectId \<Rightarrow> date \<Rightarrow> date \<Rightarrow> objectId option \<Rightarrow> booking list" where
  "findOverlappingBookings collection vehicleId' startTime' endTime' excludeBookingId =
     (let query =
            [Field F_vehicleId (Eq (ObjectId vehicleId')),
             Field F_status (In [Status Confirmed, Status InProgress]),
             Or [[(F_startTime, Lt (Date endTime')), (F_endTime, Gt (Date startTime'))]]];
          query' =
            (case excludeBookingId of
               None \<Rightarrow> query
             | Some x \<Rightarrow> query @ [Field F_id (Ne (ObjectId x))])
      in findBookings query' collection)"

section \<open>The store\<close>

text \<open>
  The two collections in insertion order. \<open>nextId\<close> stands for the generator of
  ObjectIds: every new document takes the next unused identifier.
\<close>

record store =
  vehicles :: "vehicle list"
  bookings :: "booking list"
  nextId :: objectId

definition emptyStore :: store where
  "emptyStore = \<lparr>vehicles = [], bookings = [], nextId = 0\<rparr>"

definition findVehicleById :: "vehicle list \<Rightarrow> objectId \<Rightarrow> vehicle option" where
  "findVehicleById collection i = List.find (\<lambda>v. vid v = i) collection"

definition findBookingById :: "booking list \<Rightarrow> objectId \<Rightarrow> booking option" where
  "findBookingById collection i = List.find (\<lambda>b. bid b = i) collection"

text \<open>An update addressed by \<^verbatim>\<open>_id\<close> changes the first document with that identifier.\<close>

fun updateFirst :: "('a \<Rightarrow> bool) \<Rightarrow> ('a \<Rightarrow> 'a) \<Rightarrow> 'a list \<Rightarrow> 'a list" where
  "updateFirst P f [] = []"
| "updateFirst P f (x # xs) = (if P x then f x # xs else x # updateFirst P f xs)"

text \<open>
  What a controller answers when it does not succeed. \<open>NotFound\<close> is the 404 answer,
  \<open>Conflict\<close> the 409 answer with its count of conflicting bookings, the others are 400
  answers: \<open>NotAvailable\<close> (vehicle not active), \<open>InvalidState\<close> (only confirmed bookings
  can be cancelled), \<open>TooLate\<close> (inside the hour before the start), \<open>InvalidStatus\<close>
  (unknown status word), \<open>BadRequest\<close> (the Joi validator refused the request) and
  \<open>Rejected\<close> (an exception reached the \<^verbatim>\<open>catch\<close> block and was handed to the error
  handler: a Mongoose validation or cast error).
\<close>

datatype failure =
  NotFound | NotAvailable | Conflict nat | InvalidState | TooLate | InvalidStatus
  | BadRequest | Rejected

section \<open>Schema validation of a booking (models/Booking.js)\<close>

definition trim :: "string \<Rightarrow> string" where
  "trim s = rev (dropWhile isWhiteSpace (rev (dropWhile isWhiteSpace s)))"

definition isDigit :: "char \<Rightarrow> bool" where
  "isDigit c = (48 \<le> (of_char c :: int) \<and> (of_char c :: int) \<le> 57)"

text \<open>The pattern \<^verbatim>\<open>/^\d{6}$/\<close>.\<close>

definition isPincode :: "string \<Rightarrow> bool" where
  "isPincode s = (length s = 6 \<and> list_all isDigit s)"

text \<open>
  The validators that \<^verbatim>\<open>save()\<close> runs on a new booking, at the time \<open>now\<close>. The
  string fields are already trimmed by their setters (see \<open>newBooking\<close>).
\<close>

definition bookingValidates :: "date \<Rightarrow> booking \<Rightarrow> bool" where
  "bookingValidates now b =
     (customerId b \<noteq> [] \<and> length (customerId b) \<le> 50 \<and>
      isPincode (fromPincode b) \<and> isPincode (toPincode b) \<and>
      validDate (startTime b) \<and> now < startTime b \<and>
      validDate (endTime b) \<and>
      1 / 10 \<le> (of_int (estimatedRideDurationHours b) :: rat) \<and>
      (of_int (estimatedRideDurationHours b) :: rat) \<le> 24 \<and>
      0 \<le> totalCost b)"

section \<open>Cost estimate (helpers.js, calculateBookingCost)\<close>

text \<open>
  The cost is computed here in exact rational arithmetic, where the source computes in
  doubles; \<open>None\<close> stands for a result that is NaN or infinite. The stored cost is only
  required to be a number that is not negative.
\<close>

definition calculateBookingCost :: "jsnum \<Rightarrow> rat \<Rightarrow> string \<Rightarrow> string \<Rightarrow> rat option" where
  "calculateBookingCost durationHours capacityKg' fromPincode' toPincode' =
     (case durationHours of
        Num h \<Rightarrow>
          (case js_abs (js_minus (parseInt toPincode') (parseInt fromPincode')) of
             Num distance \<Rightarrow>
               let baseRatePerHour = 500;
                   capacityMultiplier = max 1 (capacityKg' / 1000);
                   distanceMultiplier = max 1 (of_int distance / 100);
                   cost = baseRatePerHour * of_int h * capacityMultiplier * distanceMultiplier
               in Some (of_int \<lfloor>cost * 100 + 1 / 2\<rfloor> / 100)
           | _ \<Rightarrow> None)
      | _ \<Rightarrow> None)"

section \<open>Booking controller (createBooking, updateBookingStatus, cancelBooking)\<close>

text \<open>
  The request body of \<^verbatim>\<open>POST /api/bookings\<close> as the controller destructures it: an
  ObjectId, three strings and a Date.
\<close>

record booking_request =
  req_vehicleId :: objectId
  req_customerId :: string
  req_fromPincode :: string
  req_toPincode :: string
  req_startTime :: date

text \<open>
  \<^verbatim>\<open>new Date(bookingStartTime.getTime() + hours * 60 * 60 * 1000)\<close>: \<open>None\<close> is an
  Invalid Date, which the query and the schema both refuse.
\<close>

definition bookingEndTime :: "date \<Rightarrow> jsnum \<Rightarrow> (int \<times> date) option" where
  "bookingEndTime bookingStartTime hours =
     (case hours of
        Num h \<Rightarrow>
          (let t = bookingStartTime + h * 60 * 60 * 1000
           in if validDate bookingStartTime \<and> validDate t then Some (h, t) else None)
      | _ \<Rightarrow> None)"

definition newBooking :: "objectId \<Rightarrow> booking_request \<Rightarrow> date \<Rightarrow> int \<Rightarrow> rat \<Rightarrow> booking" where
  "newBooking i req endTime' hours cost =
     \<lparr>bid = i,
      vehicleId = req_vehicleId req,
      customerId = trim (req_customerId req),
      fromPincode = trim (req_fromPincode req),
      toPincode = trim (req_toPincode req),
      startTime = req_startTime req,
      endTime = endTime',
      estimatedRideDurationHours = hours,
      status = Confirmed,
      totalCost = cost\<rparr>"

text \<open>
  The last part of \<open>createBooking\<close>: the cost, the new document and \<^verbatim>\<open>booking.save()\<close>,
  which validates the document at the time \<open>now\<close> and inserts it.
\<close>

definition saveNewBooking ::
  "date \<Rightarrow> store \<Rightarrow> booking_request \<Rightarrow> vehicle \<Rightarrow> int \<Rightarrow> date \<Rightarrow> store \<times> (failure + booking)" where
  "saveNewBooking now st req vehicle hours endTime' =
     (case calculateBookingCost (Num hours) (capacityKg vehicle)
             (req_fromPincode req) (req_toPincode req) of
        None \<Rightarrow> (st, Inl Rejected)
      | Some cost \<Rightarrow>
          let booking = newBooking (nextId st) req endTime' hours cost
          in if bookingValidates now booking
             then (st\<lparr>bookings := bookings st @ [booking], nextId := Suc (nextId st)\<rparr>,
                   Inr booking)
             else (st, Inl Rejected))"

definition createBooking ::
  "date \<Rightarrow> store \<Rightarrow> booking_request \<Rightarrow> store \<times> (failure + booking)" where
  "createBooking now st req =
     (case findVehicleById (vehicles st) (req_vehicleId req) of
        None \<Rightarrow> (st, Inl NotFound)
      | Some vehicle \<Rightarrow>
          if vstatus vehicle \<noteq> Active then (st, Inl NotAvailable)
          else
            let hours = calculateRideDuration (req_fromPincode req) (req_toPincode req);
                bookingStartTime = req_startTime req
            in case bookingEndTime bookingStartTime hours of
                 None \<Rightarrow> (st, Inl Rejected)
               | Some (h, bookingEndTime') \<Rightarrow>
                   let overlappingBookings =
                         findOverlappingBookings (bookings st) (req_vehicleId req)
                           bookingStartTime bookingEndTime' None
                   in if length overlappingBookings > 0
                      then (st, Inl (Conflict (length overlappingBookings)))
                      else saveNewBooking now st req vehicle h bookingEndTime')"

definition parseBookingStatus :: "string \<Rightarrow> booking_status option" where
  "parseBookingStatus s =
     (if s = ''confirmed'' then Some Confirmed
      else if s = ''in-progress'' then Some InProgress
      else if s = ''completed'' then Some Completed
      else if s = ''cancelled'' then Some Cancelled
      else None)"

definition updateBookingStatus ::
  "store \<Rightarrow> objectId \<Rightarrow> string \<Rightarrow> store \<times> (failure + booking)" where
  "updateBookingStatus st i status' =
     (case parseBookingStatus status' of
        None \<Rightarrow> (st, Inl InvalidStatus)
      | Some s \<Rightarrow>
          (case findBookingById (bookings st) i of
             None \<Rightarrow> (st, Inl NotFound)
           | Some booking \<Rightarrow>
               (st\<lparr>bookings :=
                     updateFirst (\<lambda>b. bid b = i) (\<lambda>b. b\<lparr>status := s\<rparr>) (bookings st)\<rparr>,
                Inr (booking\<lparr>status := s\<rparr>))))"

text \<open>
  \<open>cancelBooking\<close> at the time \<open>now\<close>. Its \<^verbatim>\<open>booking.save()\<close> writes a document that was
  valid when it was inserted and whose start lies at least an hour ahead, so the
  schema's validators pass and the write is modelled as such.
\<close>

definition cancelBooking :: "date \<Rightarrow> store \<Rightarrow> objectId \<Rightarrow> store \<times> (failure + booking)" where
  "cancelBooking now st i =
     (case findBookingById (bookings st) i of
        None \<Rightarrow> (st, Inl NotFound)
      | Some booking \<Rightarrow>
          if status booking \<noteq> Confirmed then (st, Inl InvalidState)
          else
            let bookingStart = startTime booking;
                hoursUntilStart = (of_int (bookingStart - now) :: rat) / (1000 * 60 * 60)
            in if hoursUntilStart < 1 then (st, Inl TooLate)
               else
                 (st\<lparr>bookings :=
                       updateFirst (\<lambda>b. bid b = i) (\<lambda>b. b\<lparr>status := Cancelled\<rparr>) (bookings st)\<rparr>,
                  Inr (booking\<lparr>status := Cancelled\<rparr>)))"


section \<open>Request validation (middleware/validation.js)\<close>

text \<open>
  A request body is a JSON object: a list of keys with their values. Joi runs with
  \<^verbatim>\<open>stripUnknown\<close> and \<^verbatim>\<open>convert\<close>: the validated value holds the keys of the schema and
  no other, strings are trimmed, and a number given as a string is converted. That
  conversion reads a decimal numeral into a double; it is the parameter \<open>conv\<close> of the
  validator.
\<close>

datatype json = JString string | JNumber rat | JOther

type_synonym object = "(string \<times> json) list"

datatype rule =
  StringRule nat nat
  | NumberRule rat rat bool

text \<open>
  \<open>StringRule lo hi\<close> is \<^verbatim>\<open>Joi.string().trim().min(lo).max(hi).required()\<close>,
  \<open>NumberRule lo hi whole\<close> is \<^verbatim>\<open>Joi.number().min(lo).max(hi).required()\<close>, with
  \<^verbatim>\<open>.integer()\<close> when \<open>whole\<close> holds.
\<close>

definition checkRule :: "(string \<Rightarrow> rat option) \<Rightarrow> rule \<Rightarrow> json option \<Rightarrow> json option" where
  "checkRule conv r j =
     (case r of
        StringRule lo hi \<Rightarrow>
          (case j of
             Some (JString s) \<Rightarrow>
               (let t = trim s
                in if t \<noteq> [] \<and> lo \<le> length t \<and> length t \<le> hi then Some (JString t) else None)
           | _ \<Rightarrow> None)
      | NumberRule lo hi whole \<Rightarrow>
          (case (case j of Some (JNumber x) \<Rightarrow> Some x | Some (JString s) \<Rightarrow> conv s | _ \<Rightarrow> None) of
             Some x \<Rightarrow>
               if lo \<le> x \<and> x \<le> hi \<and> (whole \<longrightarrow> of_int \<lfloor>x\<rfloor> = x) then Some (JNumber x)
               else None
           | None \<Rightarrow> None))"

fun joiValidate ::
  "(string \<Rightarrow> rat option) \<Rightarrow> (string \<times> rule) list \<Rightarrow> object \<Rightarrow> object option" where
  "joiValidate conv [] body = Some []"
| "joiValidate conv ((k, r) # schema) body =
     (case checkRule conv r (map_of body k) of
        None \<Rightarrow> None
      | Some v \<Rightarrow>
          (case joiValidate conv schema body of
             None \<Rightarrow> None
           | Some rest \<Rightarrow> Some ((k, v) # rest)))"

definition vehicleSchema :: "(string \<times> rule) list" where
  "vehicleSchema =
     [(''name'', StringRule 2 100),
      (''capacityKg'', NumberRule 1 50000 False),
      (''tyres'', NumberRule 2 18 True)]"

text \<open>The conversion for requests that carry their numbers as JSON numbers.\<close>

definition noConversion :: "string \<Rightarrow> rat option" where
  "noConversion s = None"

section \<open>Vehicle controller (addVehicle, updateVehicleStatus, findAvailableVehicles)\<close>

definition parseVehicleStatus :: "string \<Rightarrow> vehicle_status option" where
  "parseVehicleStatus s =
     (if s = ''active'' then Some Active
      else if s = ''maintenance'' then Some Maintenance
      else if s = ''retired'' then Some Retired
      else None)"

text \<open>
  \<^verbatim>\<open>new Vehicle(obj)\<close> followed by \<^verbatim>\<open>save()\<close>: the schema of models/Vehicle.js casts the
  fields, fills in the default status and validates. \<open>None\<close> is a validation error. A
  field of another JSON type than the schema's is refused here; behind the validator
  every field has the schema's type.
\<close>

definition newVehicle :: "objectId \<Rightarrow> object \<Rightarrow> vehicle option" where
  "newVehicle i obj =
     (case (map_of obj ''name'', map_of obj ''capacityKg'', map_of obj ''tyres'') of
        (Some (JString n), Some (JNumber c), Some (JNumber t)) \<Rightarrow>
          (case (case map_of obj ''status'' of
                   None \<Rightarrow> Some Active
                 | Some (JString s) \<Rightarrow> parseVehicleStatus s
                 | Some _ \<Rightarrow> None) of
             None \<Rightarrow> None
           | Some s \<Rightarrow>
               if 2 \<le> length (trim n) \<and> length (trim n) \<le> 100 \<and>
                  1 \<le> c \<and> c \<le> 50000 \<and> 2 \<le> t \<and> t \<le> 18
               then Some \<lparr>vid = i, name = trim n, capacityKg = c, tyres = t, vstatus = s\<rparr>
               else None)
      | _ \<Rightarrow> None)"

text \<open>
  \<open>addVehicle\<close> destructures \<^verbatim>\<open>name\<close>, \<^verbatim>\<open>capacityKg\<close> and \<^verbatim>\<open>tyres\<close> from the body and
  builds the document from these three alone; a key the body lacks is undefined in the
  object and stays without a value. \<open>pick keys body\<close> is the object of the named keys.
\<close>

definition pick :: "string list \<Rightarrow> object \<Rightarrow> object" where
  "pick keys body =
     map (\<lambda>k. (k, the (map_of body k))) (filter (\<lambda>k. map_of body k \<noteq> None) keys)"

definition addVehicle :: "store \<Rightarrow> object \<Rightarrow> store \<times> (failure + vehicle)" where
  "addVehicle st body =
     (let obj = pick [''name'', ''capacityKg'', ''tyres''] body
      in case newVehicle (nextId st) obj of
           None \<Rightarrow> (st, Inl Rejected)
         | Some v \<Rightarrow> (st\<lparr>vehicles := vehicles st @ [v], nextId := Suc (nextId st)\<rparr>, Inr v))"

text \<open>The route \<^verbatim>\<open>POST /api/vehicles\<close>: \<^verbatim>\<open>validateVehicle\<close>, then \<open>addVehicle\<close>.\<close>

definition postVehicle ::
  "(string \<Rightarrow> rat option) \<Rightarrow> store \<Rightarrow> object \<Rightarrow> store \<times> (failure + vehicle)" where
  "postVehicle conv st body =
     (case joiValidate conv vehicleSchema body of
        None \<Rightarrow> (st, Inl BadRequest)
      | Some v \<Rightarrow> addVehicle st v)"

definition updateVehicleStatus ::
  "store \<Rightarrow> objectId \<Rightarrow> string \<Rightarrow> store \<times> (failure + vehicle)" where
  "updateVehicleStatus st i status' =
     (case parseVehicleStatus status' of
        None \<Rightarrow> (st, Inl InvalidStatus)
      | Some s \<Rightarrow>
          (case findVehicleById (vehicles st) i of
             None \<Rightarrow> (st, Inl NotFound)
           | Some vehicle \<Rightarrow>
               (st\<lparr>vehicles :=
                     updateFirst (\<lambda>v. vid v = i) (\<lambda>v. v\<lparr>vstatus := s\<rparr>) (vehicles st)\<rparr>,
                Inr (vehicle\<lparr>vstatus := s\<rparr>))))"

subsection \<open>findAvailableVehicles\<close>

text \<open>
  \<^verbatim>\<open>parseInt(x)\<close> of a number \<open>x\<close> reads the digits of its decimal notation up to the
  point: \<open>x\<close> cut off toward zero. (This is the notation of every \<open>x\<close> with
  \<open>1e-6 \<le> \<bar>x\<bar> < 1e21\<close>, which includes the capacities 1 to 50000 that the validator
  lets through.)
\<close>

definition parseIntOfNumber :: "rat \<Rightarrow> int" where
  "parseIntOfNumber x = (if x < 0 then - \<lfloor>- x\<rfloor> else \<lfloor>x\<rfloor>)"

record available_vehicle =
  vehicle_json :: vehicle
  durationHours :: int
  route :: "string \<times> string"
  timeWindow :: "date \<times> date"

text \<open>
  The loop over the suitable vehicles; \<open>availableVehicles\<close> is the array the loop
  pushes to.
\<close>

fun availableLoop ::
  "booking list \<Rightarrow> int \<Rightarrow> string \<Rightarrow> string \<Rightarrow> date \<Rightarrow> date \<Rightarrow> vehicle list \<Rightarrow>
   available_vehicle list \<Rightarrow> available_vehicle list" where
  "availableLoop collection h fromPincode' toPincode' s e [] availableVehicles = availableVehicles"
| "availableLoop collection h fromPincode' toPincode' s e (v # rest) availableVehicles =
     (let overlappingBookings = findOverlappingBookings collection (vid v) s e None
      in if length overlappingBookings = 0
         then availableLoop collection h fromPincode' toPincode' s e rest
                (availableVehicles @
                   [\<lparr>vehicle_json = v, durationHours = h,
                     route = (fromPincode', toPincode'), timeWindow = (s, e)\<rparr>])
         else availableLoop collection h fromPincode' toPincode' s e rest availableVehicles)"

text \<open>
  The sort of the query is \<open>sort_key\<close>, which keeps vehicles of equal capacity in
  their order in the collection.
\<close>

definition findAvailableVehicles ::
  "store \<Rightarrow> rat \<Rightarrow> string \<Rightarrow> string \<Rightarrow> date \<Rightarrow> failure + available_vehicle list" where
  "findAvailableVehicles st capacityRequired fromPincode' toPincode' startTime' =
     (let hours = calculateRideDuration fromPincode' toPincode';
          bookingStartTime = startTime';
          suitableVehicles =
            sort_key capacityKg
              (filter (\<lambda>v. of_int (parseIntOfNumber capacityRequired) \<le> capacityKg v \<and>
                             vstatus v = Active)
                 (vehicles st))
      in if length suitableVehicles = 0 then Inr []
         else
           (case bookingEndTime bookingStartTime hours of
              None \<Rightarrow> Inl Rejected
            | Some (h, bookingEndTime') \<Rightarrow>
                Inr (availableLoop (bookings st) h fromPincode' toPincode'
                       bookingStartTime bookingEndTime' suitableVehicles [])))"

section \<open>Runs of the service\<close>

text \<open>
  The requests that change the store, each with the time at which it is served where
  the controller reads the clock.
\<close>

datatype operation =
  AddVehicle object
  | UpdateVehicleStatus objectId string
  | CreateBooking date booking_request
  | UpdateBookingStatus objectId string
  | CancelBooking date objectId

fun exec :: "(string \<Rightarrow> rat option) \<Rightarrow> store \<Rightarrow> operation \<Rightarrow> store" where
  "exec conv st (AddVehicle body) = fst (postVehicle conv st body)"
| "exec conv st (UpdateVehicleStatus i s) = fst (updateVehicleStatus st i s)"
| "exec conv st (CreateBooking now req) = fst (createBooking now st req)"
| "exec conv st (UpdateBookingStatus i s) = fst (updateBookingStatus st i s)"
| "exec conv st (CancelBooking now i) = fst (cancelBooking now st i)"

inductive reachable :: "(string \<Rightarrow> rat option) \<Rightarrow> store \<Rightarrow> bool" for conv where
  reachable_empty: "reachable conv emptyStore"
| reachable_exec: "reachable conv st \<Longrightarrow> reachable conv (exec conv st op)"

subsection \<open>The double-booking invariant\<close>

definition active :: "booking \<Rightarrow> bool" where
  "active b = (status b = Confirmed \<or> status b = InProgress)"

definition conflicting :: "booking \<Rightarrow> booking \<Rightarrow> bool" where
  "conflicting a b =
     (vehicleId a = vehicleId b \<and> active a \<and> active b \<and>
      overlapsWithTimeWindow a (startTime b) (endTime b))"

text \<open>No two documents at different places of the collection are in conflict.\<close>

definition noDoubleBooking :: "booking list \<Rightarrow> bool" where
  "noDoubleBooking collection = sorted_wrt (\<lambda>a b. \<not> conflicting a b) collection"



subsection \<open>Interleaved admissions\<close>

text \<open>
  \<open>createBooking\<close> is an \<^verbatim>\<open>async\<close> function: it gives up control at each \<^verbatim>\<open>await\<close>,
  and another request may be served before it goes on. Between two awaits it runs
  alone. A task is a call of \<open>createBooking\<close> at one of its awaits on the store:
  \<^verbatim>\<open>Vehicle.findById\<close>, \<^verbatim>\<open>Booking.findOverlappingBookings\<close> and \<^verbatim>\<open>booking.save()\<close>.
\<close>

datatype task =
  AtFindById booking_request
  | AtFindOverlapping booking_request vehicle
  | AtSave booking_request vehicle int date
  | Finished "failure + booking"

fun createBooking_step :: "date \<Rightarrow> store \<Rightarrow> task \<Rightarrow> store \<times> task" where
  "createBooking_step now st (AtFindById req) =
     (case findVehicleById (vehicles st) (req_vehicleId req) of
        None \<Rightarrow> (st, Finished (Inl NotFound))
      | Some vehicle \<Rightarrow>
          if vstatus vehicle \<noteq> Active then (st, Finished (Inl NotAvailable))
          else (st, AtFindOverlapping req vehicle))"
| "createBooking_step now st (AtFindOverlapping req vehicle) =
     (case bookingEndTime (req_startTime req)
             (calculateRideDuration (req_fromPincode req) (req_toPincode req)) of
        None \<Rightarrow> (st, Finished (Inl Rejected))
      | Some (h, bookingEndTime') \<Rightarrow>
          let overlappingBookings =
                findOverlappingBookings (bookings st) (req_vehicleId req)
                  (req_startTime req) bookingEndTime' None
          in if length overlappingBookings > 0
             then (st, Finished (Inl (Conflict (length overlappingBookings))))
             else (st, AtSave req vehicle h bookingEndTime'))"
| "createBooking_step now st (AtSave req vehicle h bookingEndTime') =
     (case saveNewBooking now st req vehicle h bookingEndTime' of
        (st', r) \<Rightarrow> (st', Finished r))"
| "createBooking_step now st (Finished r) = (st, Finished r)"

text \<open>
  A schedule names, step by step, the time and the task that runs up to its next
  await.
\<close>

fun runSchedule :: "(date \<times> nat) list \<Rightarrow> store \<times> task list \<Rightarrow> store \<times> task list" where
  "runSchedule [] c = c"
| "runSchedule ((now, i) # schedule) (st, tasks) =
     (if i < length tasks
      then (case createBooking_step now st (tasks ! i) of
              (st', t') \<Rightarrow> runSchedule schedule (st', tasks[i := t']))
      else runSchedule schedule (st, tasks))"


subsection \<open>Well-formed stores\<close>

text \<open>
  The identifiers of the bookings are pairwise different and were all handed out
  already (MongoDB keeps \<^verbatim>\<open>_id\<close> unique).
\<close>

definition wfStore :: "store \<Rightarrow> bool" where
  "wfStore st =
     (distinct (map bid (bookings st)) \<and> (\<forall>b \<in> set (bookings st). bid b < nextId st))"

section \<open>Example data\<close>

text \<open>
  The vehicle of the test suite (with a status field added to the request body), a
  booking request for it over 4 hours, and runs of the service. Times are in
  milliseconds; one hour is 3600000.
\<close>

definition testVehicleBody :: object where
  "testVehicleBody =
     [(''name'', JString ''Test Vehicle''), (''capacityKg'', JNumber 5000),
      (''tyres'', JNumber 6), (''status'', JString ''retired'')]"

definition testVehicle :: vehicle where
  "testVehicle =
     \<lparr>vid = 0, name = ''Test Vehicle'', capacityKg = 5000, tyres = 6, vstatus = Active\<rparr>"

definition testRequest :: "string \<Rightarrow> date \<Rightarrow> booking_request" where
  "testRequest customer start =
     \<lparr>req_vehicleId = 0, req_customerId = customer, req_fromPincode = ''110001'',
      req_toPincode = ''110005'', req_startTime = start\<rparr>"

definition testBooking :: "objectId \<Rightarrow> string \<Rightarrow> date \<Rightarrow> booking_status \<Rightarrow> booking" where
  "testBooking i customer start s =
     \<lparr>bid = i, vehicleId = 0, customerId = customer, fromPincode = ''110001'',
      toPincode = ''110005'', startTime = start, endTime = start + 4 * 3600000,
      estimatedRideDurationHours = 4, status = s, totalCost = 10000\<rparr>"

definition fleetStore :: store where
  "fleetStore = \<lparr>vehicles = [testVehicle], bookings = [], nextId = 1\<rparr>"

text \<open>
  A booking is made and cancelled, the freed window is booked by another customer.
\<close>

definition rebookRun :: "operation list" where
  "rebookRun =
     [AddVehicle testVehicleBody,
      CreateBooking 0 (testRequest ''CUST001'' 7200000),
      CancelBooking 0 1,
      CreateBooking 0 (testRequest ''CUST002'' 7200000)]"

text \<open>
  Two admissions for the same window, served one after the other and served in turns.
\<close>

definition serialSchedule :: "(date \<times> nat) list" where
  "serialSchedule = [(0, 0), (0, 0), (0, 0), (0, 1), (0, 1), (0, 1)]"

definition raceSchedule :: "(date \<times> nat) list" where
  "raceSchedule = [(0, 0), (0, 1), (0, 0), (0, 1), (0, 0), (0, 1)]"

text \<open>A van of 1500 kg, for a search with a required capacity of 1500.5 kg.\<close>

definition smallVan :: vehicle where
  "smallVan = \<lparr>vid = 0, name = ''Small Van'', capacityKg = 1500, tyres = 4, vstatus = Active\<rparr>"

section \<open>Numbers: facts about the double conversion\<close>

lemma toNumber_exact: "\<bar>n\<bar> < 2 ^ 53 \<Longrightarrow> toNumber n = Num n"
  by (simp add: toNumber_def Let_def)


















section \<open>The duration estimate\<close>

text \<open>
  A string that trims to six digits parses to the number its digits write; with two
  such codes the estimate is \<open>max 1 (\<bar>a - b\<bar> mod 24)\<close> of the exact difference.
\<close>

lemma whitespace_not_digit: "isWhiteSpace c \<Longrightarrow> digitOf R c = None"
  by (auto simp: isWhiteSpace_def digitOf_def)


lemma digit_not_whitespace: "isDigit c \<Longrightarrow> \<not> isWhiteSpace c"
  by (auto simp: isWhiteSpace_def isDigit_def)


lemma digitOf_digit: "isDigit c \<Longrightarrow> digitOf R c = Some (of_char c - 48)"
  by (simp add: isDigit_def digitOf_def)


lemma digitsPrefix_digits:
  "list_all isDigit p \<Longrightarrow> list_all isWhiteSpace w \<Longrightarrow>
   digitsPrefix R (p @ w) = map (\<lambda>c. of_char c - 48) p"
proof (induction p)
  case Nil
  then show ?case by (cases w) (simp_all add: whitespace_not_digit)
next
  case (Cons c p)
  then show ?case by (simp add: digitOf_digit)
qed


lemma mathInt_bounds:
  "\<forall>d \<in> set ds. 0 \<le> d \<and> d \<le> 9 \<Longrightarrow> 0 \<le> (a::int) \<Longrightarrow>
   0 \<le> foldl (\<lambda>acc d. acc * 10 + d) a ds \<and>
   foldl (\<lambda>acc d. acc * 10 + d) a ds < (a + 1) * 10 ^ length ds"
proof (induction ds arbitrary: a)
  case Nil
  then show ?case by simp
next
  case (Cons d ds)
  then have d: "0 \<le> d" "d \<le> 9" and rest: "\<forall>d \<in> set ds. 0 \<le> d \<and> d \<le> 9" by simp_all
  from Cons.prems d have a': "0 \<le> a * 10 + d" by simp
  from Cons.IH [OF rest a']
  have lo: "0 \<le> foldl (\<lambda>acc d. acc * 10 + d) (a * 10 + d) ds"
    and hi: "foldl (\<lambda>acc d. acc * 10 + d) (a * 10 + d) ds < (a * 10 + d + 1) * 10 ^ length ds"
    by simp_all
  from d have "a * 10 + d + 1 \<le> (a + 1) * 10" by simp
  then have "(a * 10 + d + 1) * 10 ^ length ds \<le> ((a + 1) * 10) * 10 ^ length ds"
    by (rule mult_right_mono) simp
  with hi have "foldl (\<lambda>acc d. acc * 10 + d) (a * 10 + d) ds < ((a + 1) * 10) * 10 ^ length ds"
    by (rule less_le_trans)
  then have "foldl (\<lambda>acc d. acc * 10 + d) (a * 10 + d) ds < (a + 1) * 10 ^ length (d # ds)"
    by (simp add: algebra_simps)
  with lo show ?case by simp
qed


lemma trim_decompose:
  "\<exists>w. dropWhile isWhiteSpace s = trim s @ w \<and> list_all isWhiteSpace w"
proof -
  let ?g = "dropWhile isWhiteSpace s"
  have "rev ?g = takeWhile isWhiteSpace (rev ?g) @ dropWhile isWhiteSpace (rev ?g)" by simp
  then have "?g = rev (dropWhile isWhiteSpace (rev ?g)) @ rev (takeWhile isWhiteSpace (rev ?g))"
    by (metis rev_append rev_rev_ident)
  moreover have "list_all isWhiteSpace (rev (takeWhile isWhiteSpace (rev ?g)))"
    by (simp add: list_all_iff) (meson set_takeWhileD)
  ultimately show ?thesis unfolding trim_def by blast
qed


lemma parseInt_pincode:
  assumes "isPincode (trim s)"
  shows "\<exists>n. parseInt s = Num n \<and> 0 \<le> n \<and> n < 1000000"
proof -
  from trim_decompose obtain w where
    g: "dropWhile isWhiteSpace s = trim s @ w" and w: "list_all isWhiteSpace w" by blast
  from assms have len: "length (trim s) = 6" and dig: "list_all isDigit (trim s)"
    by (simp_all add: isPincode_def)
  from len obtain c1 c2 r where p: "trim s = c1 # c2 # r"
    by (metis (no_types, opaque_lifting) Suc_length_conv numeral_eq_Suc pred_numeral_simps(2,3)
        semiring_norm(26,27))
  from dig p have c: "isDigit c1" "isDigit c2" by simp_all
  from c have c1: "c1 \<noteq> CHR ''-''" "c1 \<noteq> CHR ''+''" and c2: "c2 \<noteq> CHR ''x''" "c2 \<noteq> CHR ''X''"
    by (auto simp: isDigit_def)
  let ?Z = "map (\<lambda>c. of_char c - 48) (trim s) :: int list"
  have Z: "digitsPrefix 10 (trim s @ w) = ?Z"
    using dig w by (rule digitsPrefix_digits)
  have range: "\<forall>d \<in> set ?Z. 0 \<le> d \<and> d \<le> 9"
    using dig by (auto simp: list_all_iff isDigit_def)
  from mathInt_bounds [OF range, of 0] len
  have b: "0 \<le> mathInt 10 ?Z" "mathInt 10 ?Z < 1000000"
    by (simp_all add: mathInt_def)
  have "parseInt s = toNumber (mathInt 10 ?Z)"
    unfolding parseInt_def g Let_def using p c1 c2 Z
    by (simp add: p)
  also have "\<dots> = Num (mathInt 10 ?Z)"
    using b by (intro toNumber_exact) simp
  finally show ?thesis using b by blast
qed


lemma calculateRideDuration_pincodes:
  assumes "isPincode (trim f)" "isPincode (trim t)"
  shows "\<exists>a b. parseInt f = Num a \<and> parseInt t = Num b \<and>
           0 \<le> a \<and> a < 1000000 \<and> 0 \<le> b \<and> b < 1000000 \<and>
           calculateRideDuration f t = Num (max 1 (\<bar>a - b\<bar> mod 24))"
proof -
  from parseInt_pincode [OF assms(1)] obtain a where
    a: "parseInt f = Num a" "0 \<le> a" "a < 1000000" by blast
  from parseInt_pincode [OF assms(2)] obtain b where
    b: "parseInt t = Num b" "0 \<le> b" "b < 1000000" by blast
  from a b have "\<bar>a - b\<bar> < 2 ^ 53" by simp
  then have "js_minus (Num a) (Num b) = Num (a - b)"
    by (simp add: js_minus_def toNumber_exact)
  with a b have "calculateRideDuration f t = Num (max 1 (\<bar>a - b\<bar> mod 24))"
    by (simp add: calculateRideDuration_def isNaN_def js_abs_def js_rem_def js_max_def max.commute)
  with a b show ?thesis by blast
qed








section \<open>The overlap predicate\<close>

text \<open>
  C5. The window \<open>[startTime A, endTime A)\<close> of a booking \<open>A\<close> overlaps a window
  \<open>[startB, endB)\<close> exactly when \<open>startTime A < endB\<close> and \<open>startB < endTime A\<close>. The
  predicate is symmetric, a window (its start before its end) overlaps itself, and two
  windows back to back do not overlap.
\<close>

theorem overlap_predicate:
  "(overlapsWithTimeWindow A startB endB \<longleftrightarrow> startTime A < endB \<and> startB < endTime A) \<and>
   (overlapsWithTimeWindow A (startTime B) (endTime B) \<longleftrightarrow>
      overlapsWithTimeWindow B (startTime A) (endTime A)) \<and>
   (startTime A < endTime A \<longrightarrow> overlapsWithTimeWindow A (startTime A) (endTime A)) \<and>
   (endTime A = startTime B \<longrightarrow> \<not> overlapsWithTimeWindow A (startTime B) (endTime B))"
  by (auto simp: overlapsWithTimeWindow_def)


text \<open>
  The windows of the specification: 2 to 6 hours against 4 to 8 hours, against 6 to 10
  hours and against itself.
\<close>

theorem overlap_predicate_witness:
  "overlapsWithTimeWindow (testBooking 1 ''CUST001'' 7200000 Confirmed) 14400000 28800000 \<and>
   \<not> overlapsWithTimeWindow (testBooking 1 ''CUST001'' 7200000 Confirmed) 21600000 36000000 \<and>
   overlapsWithTimeWindow (testBooking 1 ''CUST001'' 7200000 Confirmed) 7200000 21600000"
proof -
  let ?A = "testBooking 1 ''CUST001'' 7200000 Confirmed"
  let ?B = "testBooking 2 ''CUST002'' 21600000 Confirmed"
  have w: "startTime ?A = 7200000" "endTime ?A = 21600000"
    "startTime ?B = 21600000" "endTime ?B = 36000000"
    by (simp_all add: testBooking_def)
  note T = overlap_predicate [of ?A 14400000 28800000 ?B]
  from T have "overlapsWithTimeWindow ?A 14400000 28800000 \<longleftrightarrow>
      startTime ?A < 28800000 \<and> 14400000 < endTime ?A" by blast
  with w have 1: "overlapsWithTimeWindow ?A 14400000 28800000" by simp
  from T have "endTime ?A = startTime ?B \<longrightarrow>
      \<not> overlapsWithTimeWindow ?A (startTime ?B) (endTime ?B)" by blast
  with w have 2: "\<not> overlapsWithTimeWindow ?A 21600000 36000000" by simp
  from T have "startTime ?A < endTime ?A \<longrightarrow>
      overlapsWithTimeWindow ?A (startTime ?A) (endTime ?A)" by blast
  with w have 3: "overlapsWithTimeWindow ?A 7200000 21600000" by simp
  from 1 2 3 show ?thesis by simp
qed


text \<open>
  In terms of the half-open intervals: windows that do not overlap have no instant in
  common, and two proper windows overlap exactly when their intervals meet.
\<close>

lemma disjoint_windows:
  "\<not> overlapsWithTimeWindow a (startTime b) (endTime b) \<Longrightarrow>
   {startTime a..<endTime a} \<inter> {startTime b..<endTime b} = {}"
  by (auto simp: overlapsWithTimeWindow_def)


lemma overlap_iff_meet:
  "startTime a < endTime a \<Longrightarrow> s < e \<Longrightarrow>
   overlapsWithTimeWindow a s e \<longleftrightarrow> {startTime a..<endTime a} \<inter> {s..<e} \<noteq> {}"
proof
  assume p: "startTime a < endTime a" "s < e" and o: "overlapsWithTimeWindow a s e"
  then have "max (startTime a) s \<in> {startTime a..<endTime a} \<inter> {s..<e}"
    by (auto simp: overlapsWithTimeWindow_def)
  then show "{startTime a..<endTime a} \<inter> {s..<e} \<noteq> {}" by blast
next
  assume "{startTime a..<endTime a} \<inter> {s..<e} \<noteq> {}"
  then show "overlapsWithTimeWindow a s e"
    by (auto simp: overlapsWithTimeWindow_def)
qed


section \<open>The conflict query\<close>

lemma findOverlappingBookings_filter:
  "findOverlappingBookings collection v s e x =
     filter (\<lambda>b. vehicleId b = v \<and> active b \<and> overlapsWithTimeWindow b s e \<and> Some (bid b) \<noteq> x)
       collection"
  unfolding findOverlappingBookings_def findBookings_def Let_def
  by (cases x; intro filter_cong refl)
     (auto simp: matchesAll_def active_def overlapsWithTimeWindow_def)


text \<open>
  C4. \<open>findOverlappingBookings\<close> returns, in the order of the collection, exactly the
  bookings of the vehicle that are confirmed or in progress, overlap the window and are
  not the excluded booking; a completed or cancelled booking is never in the result. The
  query is a function of the collection it reads and returns documents only: it writes
  nothing.
\<close>

theorem findOverlappingBookings_spec:
  "findOverlappingBookings collection v s e x =
     filter (\<lambda>b. vehicleId b = v \<and> (status b = Confirmed \<or> status b = InProgress) \<and>
                  overlapsWithTimeWindow b s e \<and> Some (bid b) \<noteq> x)
       collection \<and>
   (\<forall>b \<in> set (findOverlappingBookings collection v s e x).
      status b \<noteq> Completed \<and> status b \<noteq> Cancelled)"
  by (auto simp: findOverlappingBookings_filter active_def)


text \<open>
  Five bookings of one vehicle against the window from 2 to 6 hours: the cancelled, the
  completed and the adjacent one are left out, and so is the excluded one.
\<close>

theorem findOverlappingBookings_spec_witness:
  "findOverlappingBookings
     [testBooking 1 ''A'' 7200000 Confirmed, testBooking 2 ''B'' 7200000 Cancelled,
      testBooking 3 ''C'' 7200000 Completed, testBooking 4 ''D'' 21600000 InProgress,
      testBooking 5 ''E'' 14400000 InProgress]
     0 7200000 21600000 None =
     [testBooking 1 ''A'' 7200000 Confirmed, testBooking 5 ''E'' 14400000 InProgress] \<and>
   findOverlappingBookings
     [testBooking 1 ''A'' 7200000 Confirmed, testBooking 2 ''B'' 7200000 Cancelled,
      testBooking 3 ''C'' 7200000 Completed, testBooking 4 ''D'' 21600000 InProgress,
      testBooking 5 ''E'' 14400000 InProgress]
     0 7200000 21600000 (Some 5) =
     [testBooking 1 ''A'' 7200000 Confirmed]"
proof -
  let ?bs = "[testBooking 1 ''A'' 7200000 Confirmed, testBooking 2 ''B'' 7200000 Cancelled,
      testBooking 3 ''C'' 7200000 Completed, testBooking 4 ''D'' 21600000 InProgress,
      testBooking 5 ''E'' 14400000 InProgress]"
  from findOverlappingBookings_spec [of ?bs 0 7200000 21600000 None]
  have 1: "findOverlappingBookings ?bs 0 7200000 21600000 None =
      [testBooking 1 ''A'' 7200000 Confirmed, testBooking 5 ''E'' 14400000 InProgress]"
    by (simp add: testBooking_def overlapsWithTimeWindow_def)
  from findOverlappingBookings_spec [of ?bs 0 7200000 21600000 "Some 5"]
  have 2: "findOverlappingBookings ?bs 0 7200000 21600000 (Some 5) =
      [testBooking 1 ''A'' 7200000 Confirmed]"
    by (simp add: testBooking_def overlapsWithTimeWindow_def)
  from 1 2 show ?thesis by simp
qed


section \<open>Admission\<close>

lemma saveNewBooking_cases:
  "saveNewBooking now st req v h e =
     (case calculateBookingCost (Num h) (capacityKg v) (req_fromPincode req) (req_toPincode req) of
        None \<Rightarrow> (st, Inl Rejected)
      | Some c \<Rightarrow>
          if bookingValidates now (newBooking (nextId st) req e h c)
          then (st\<lparr>bookings := bookings st @ [newBooking (nextId st) req e h c],
                   nextId := Suc (nextId st)\<rparr>,
                Inr (newBooking (nextId st) req e h c))
          else (st, Inl Rejected))"
  by (simp add: saveNewBooking_def Let_def split: option.splits)


lemma saveNewBooking_Inl: "saveNewBooking now st req v h e = (st', Inl f) \<Longrightarrow> st' = st \<and> f = Rejected"
  by (auto simp: saveNewBooking_cases split: option.splits if_splits)


lemma saveNewBooking_Inr:
  "saveNewBooking now st req v h e = (st', Inr b) \<Longrightarrow>
     (\<exists>c. calculateBookingCost (Num h) (capacityKg v) (req_fromPincode req) (req_toPincode req) = Some c \<and>
          b = newBooking (nextId st) req e h c) \<and>
     bookingValidates now b \<and>
     st' = st\<lparr>bookings := bookings st @ [b], nextId := Suc (nextId st)\<rparr>"
  by (auto simp: saveNewBooking_cases split: option.splits if_splits)


lemma bookingEndTime_Some:
  "bookingEndTime s d = Some (h, e) \<longleftrightarrow>
     d = Num h \<and> e = s + h * 60 * 60 * 1000 \<and> validDate s \<and> validDate e"
  by (auto simp: bookingEndTime_def Let_def split: jsnum.splits)


text \<open>The outcome of \<open>createBooking\<close>, branch by branch.\<close>

lemma createBooking_NotFound:
  "findVehicleById (vehicles st) (req_vehicleId req) = None \<Longrightarrow>
   createBooking now st req = (st, Inl NotFound)"
  by (simp add: createBooking_def)


lemma createBooking_NotAvailable:
  "findVehicleById (vehicles st) (req_vehicleId req) = Some v \<Longrightarrow> vstatus v \<noteq> Active \<Longrightarrow>
   createBooking now st req = (st, Inl NotAvailable)"
  by (simp add: createBooking_def)


lemma createBooking_no_window:
  "findVehicleById (vehicles st) (req_vehicleId req) = Some v \<Longrightarrow> vstatus v = Active \<Longrightarrow>
   bookingEndTime (req_startTime req)
     (calculateRideDuration (req_fromPincode req) (req_toPincode req)) = None \<Longrightarrow>
   createBooking now st req = (st, Inl Rejected)"
  by (simp add: createBooking_def)


lemma createBooking_window:
  "findVehicleById (vehicles st) (req_vehicleId req) = Some v \<Longrightarrow> vstatus v = Active \<Longrightarrow>
   bookingEndTime (req_startTime req)
     (calculateRideDuration (req_fromPincode req) (req_toPincode req)) = Some (h, e) \<Longrightarrow>
   createBooking now st req =
     (let n = length (findOverlappingBookings (bookings st) (req_vehicleId req)
                        (req_startTime req) e None)
      in if 0 < n then (st, Inl (Conflict n)) else saveNewBooking now st req v h e)"
  by (simp add: createBooking_def Let_def)


lemma createBooking_Inl: "createBooking now st req = (st', Inl f) \<Longrightarrow> st' = st"
  unfolding createBooking_def Let_def
  by (auto split: option.splits if_splits prod.splits dest: saveNewBooking_Inl)


lemma createBooking_Inr:
  assumes "createBooking now st req = (st', Inr b)"
  shows "\<exists>v h e c.
      findVehicleById (vehicles st) (req_vehicleId req) = Some v \<and> vstatus v = Active \<and>
      calculateRideDuration (req_fromPincode req) (req_toPincode req) = Num h \<and>
      e = req_startTime req + h * 60 * 60 * 1000 \<and>
      findOverlappingBookings (bookings st) (req_vehicleId req) (req_startTime req) e None = [] \<and>
      b = newBooking (nextId st) req e h c \<and> bookingValidates now b \<and>
      st' = st\<lparr>bookings := bookings st @ [b], nextId := Suc (nextId st)\<rparr>"
proof -
  from assms obtain v where v: "findVehicleById (vehicles st) (req_vehicleId req) = Some v"
    by (cases "findVehicleById (vehicles st) (req_vehicleId req)") (auto simp: createBooking_NotFound)
  from assms v have act: "vstatus v = Active"
    by (cases "vstatus v = Active") (auto simp: createBooking_NotAvailable)
  from assms v act obtain h e where w:
    "bookingEndTime (req_startTime req)
       (calculateRideDuration (req_fromPincode req) (req_toPincode req)) = Some (h, e)"
    by (cases "bookingEndTime (req_startTime req)
       (calculateRideDuration (req_fromPincode req) (req_toPincode req))")
       (auto simp: createBooking_no_window)
  from assms createBooking_window [OF v act w, of now]
  have none: "findOverlappingBookings (bookings st) (req_vehicleId req) (req_startTime req) e None = []"
    and save: "saveNewBooking now st req v h e = (st', Inr b)"
    by (auto simp: Let_def split: if_splits)
  from saveNewBooking_Inr [OF save] w v act none show ?thesis
    by (auto simp: bookingEndTime_Some)
qed








lemma calculateBookingCost_pincodes:
  assumes "isPincode (trim f)" "isPincode (trim t)" "0 \<le> h"
  shows "\<exists>c. calculateBookingCost (Num h) cap f t = Some c \<and> 0 \<le> c"
proof -
  from parseInt_pincode [OF assms(1)] obtain a where
    a: "parseInt f = Num a" "0 \<le> a" "a < 1000000" by blast
  from parseInt_pincode [OF assms(2)] obtain b where
    b: "parseInt t = Num b" "0 \<le> b" "b < 1000000" by blast
  from a b have "\<bar>b - a\<bar> < 2 ^ 53" by simp
  then have d: "js_abs (js_minus (Num b) (Num a)) = Num \<bar>b - a\<bar>"
    by (simp add: js_minus_def js_abs_def toNumber_exact)
  define x :: rat where
    "x = 500 * of_int h * max 1 (cap / 1000) * max 1 (of_int \<bar>b - a\<bar> / 100)"
  have "0 \<le> x" unfolding x_def using assms(3) by (intro mult_nonneg_nonneg) simp_all
  then have "0 \<le> \<lfloor>x * 100 + 1 / 2\<rfloor>" by simp
  then have "0 \<le> (of_int \<lfloor>x * 100 + 1 / 2\<rfloor> :: rat) / 100" by simp
  moreover have "calculateBookingCost (Num h) cap f t = Some (of_int \<lfloor>x * 100 + 1 / 2\<rfloor> / 100)"
    by (simp add: calculateBookingCost_def a b d x_def Let_def)
  ultimately show ?thesis by blast
qed


text \<open>
  A request with pincodes of six digits, a customer of 1 to 50 characters and a start
  after the clock, for an active vehicle whose window is free, is admitted.
\<close>

lemma createBooking_accepts:
  assumes v: "findVehicleById (vehicles st) (req_vehicleId req) = Some v" "vstatus v = Active"
    and pin: "isPincode (trim (req_fromPincode req))" "isPincode (trim (req_toPincode req))"
    and cust: "trim (req_customerId req) \<noteq> []" "length (trim (req_customerId req)) \<le> 50"
    and time: "now < req_startTime req" "validDate (req_startTime req)"
      "validDate (req_startTime req + 23 * 60 * 60 * 1000)"
  shows "\<exists>h. calculateRideDuration (req_fromPincode req) (req_toPincode req) = Num h \<and>
           1 \<le> h \<and> h \<le> 23 \<and>
           (findOverlappingBookings (bookings st) (req_vehicleId req) (req_startTime req)
              (req_startTime req + h * 60 * 60 * 1000) None = [] \<longrightarrow>
            (\<exists>b. createBooking now st req =
                   (st\<lparr>bookings := bookings st @ [b], nextId := Suc (nextId st)\<rparr>, Inr b) \<and>
                 status b = Confirmed \<and> vehicleId b = req_vehicleId req \<and>
                 startTime b = req_startTime req \<and>
                 endTime b = req_startTime req + h * 60 * 60 * 1000))"
proof -
  from calculateRideDuration_pincodes [OF pin] obtain a b where
    dur: "calculateRideDuration (req_fromPincode req) (req_toPincode req) =
      Num (max 1 (\<bar>a - b\<bar> mod 24))" by blast
  define h where "h = max 1 (\<bar>a - b\<bar> mod 24)"
  have "\<bar>a - b\<bar> mod 24 < 24" by simp
  then have h: "1 \<le> h" "h \<le> 23" by (simp_all add: h_def)
  define e where "e = req_startTime req + h * 60 * 60 * 1000"
  from time h have ve: "validDate e" by (simp add: validDate_def e_def)
  with dur time have w: "bookingEndTime (req_startTime req)
      (calculateRideDuration (req_fromPincode req) (req_toPincode req)) = Some (h, e)"
    by (simp add: bookingEndTime_Some h_def e_def)
  from calculateBookingCost_pincodes [OF pin, of h "capacityKg v"] h obtain c where
    c: "calculateBookingCost (Num h) (capacityKg v) (req_fromPincode req) (req_toPincode req) = Some c"
      "0 \<le> c" by auto
  let ?b = "newBooking (nextId st) req e h c"
  have valid: "bookingValidates now ?b"
    using pin cust time ve h c by (simp add: bookingValidates_def newBooking_def)
  have "createBooking now st req =
      (st\<lparr>bookings := bookings st @ [?b], nextId := Suc (nextId st)\<rparr>, Inr ?b)"
    if "findOverlappingBookings (bookings st) (req_vehicleId req) (req_startTime req) e None = []"
    using createBooking_window [OF v w, of now] that c valid
    by (simp add: saveNewBooking_cases)
  moreover have "status ?b = Confirmed" "vehicleId ?b = req_vehicleId req"
    "startTime ?b = req_startTime req" "endTime ?b = e"
    by (simp_all add: newBooking_def)
  ultimately show ?thesis
    using dur h unfolding h_def [symmetric] e_def by blast
qed








section \<open>Cancellation\<close>



lemma find_updateFirst:
  "List.find P xs = Some b \<Longrightarrow> P (f b) \<Longrightarrow> List.find P (updateFirst P f xs) = Some (f b)"
  by (induction xs) (auto split: if_splits)






section \<open>No double booking\<close>

lemma conflicting_sym: "conflicting a b \<longleftrightarrow> conflicting b a"
  by (auto simp: conflicting_def overlapsWithTimeWindow_def)


lemma noDoubleBooking_nth:
  "noDoubleBooking bs \<longleftrightarrow>
     (\<forall>i < length bs. \<forall>j < length bs. i \<noteq> j \<longrightarrow> \<not> conflicting (bs ! i) (bs ! j))"
proof
  assume "noDoubleBooking bs"
  then have *: "\<And>i j. i < j \<Longrightarrow> j < length bs \<Longrightarrow> \<not> conflicting (bs ! i) (bs ! j)"
    by (simp add: noDoubleBooking_def sorted_wrt_iff_nth_less)
  show "\<forall>i < length bs. \<forall>j < length bs. i \<noteq> j \<longrightarrow> \<not> conflicting (bs ! i) (bs ! j)"
  proof (intro allI impI)
    fix i j assume "i < length bs" "j < length bs" "i \<noteq> j"
    then consider "i < j" | "j < i" by linarith
    then show "\<not> conflicting (bs ! i) (bs ! j)"
    proof cases
      case 1 with * \<open>j < length bs\<close> show ?thesis by blast
    next
      case 2 with * \<open>i < length bs\<close> have "\<not> conflicting (bs ! j) (bs ! i)" by blast
      then show ?thesis by (simp add: conflicting_sym)
    qed
  qed
next
  assume "\<forall>i < length bs. \<forall>j < length bs. i \<noteq> j \<longrightarrow> \<not> conflicting (bs ! i) (bs ! j)"
  then show "noDoubleBooking bs"
    by (auto simp: noDoubleBooking_def sorted_wrt_iff_nth_less)
qed


text \<open>
  Under the invariant, two active bookings of one vehicle have no instant in common.
\<close>

lemma noDoubleBooking_disjoint:
  assumes "noDoubleBooking collection" "i < length collection" "j < length collection" "i \<noteq> j"
    and "vehicleId (collection ! i) = vehicleId (collection ! j)"
    and "active (collection ! i)" "active (collection ! j)"
  shows "{startTime (collection ! i)..<endTime (collection ! i)} \<inter>
         {startTime (collection ! j)..<endTime (collection ! j)} = {}"
proof -
  from assms(1-4) have "\<not> conflicting (collection ! i) (collection ! j)"
    by (simp add: noDoubleBooking_nth)
  with assms(5-7) have
    "\<not> overlapsWithTimeWindow (collection ! i) (startTime (collection ! j)) (endTime (collection ! j))"
    by (simp add: conflicting_def)
  then show ?thesis by (rule disjoint_windows)
qed








lemma set_updateFirst:
  "List.find P xs = Some b \<Longrightarrow> set (updateFirst P f xs) \<subseteq> insert (f b) (set xs)"
  by (induction xs) (auto split: if_splits)


lemma updateFirst_none: "List.find P xs = None \<Longrightarrow> updateFirst P f xs = xs"
  by (induction xs) (auto split: if_splits)


lemma find_in_set: "List.find P xs = Some b \<Longrightarrow> b \<in> set xs \<and> P b"
  by (induction xs) (auto split: if_splits)






lemma addVehicle_cases:
  "addVehicle st body = (st, Inl Rejected) \<or>
   (\<exists>v. newVehicle (nextId st) (pick [''name'', ''capacityKg'', ''tyres''] body) = Some v \<and>
        addVehicle st body =
          (st\<lparr>vehicles := vehicles st @ [v], nextId := Suc (nextId st)\<rparr>, Inr v))"
  unfolding addVehicle_def Let_def
  by (cases "newVehicle (nextId st) (pick [''name'', ''capacityKg'', ''tyres''] body)") simp_all


lemma postVehicle_cases:
  "postVehicle conv st body = (st, Inl BadRequest) \<or>
   postVehicle conv st body = (st, Inl Rejected) \<or>
   (\<exists>v. postVehicle conv st body =
          (st\<lparr>vehicles := vehicles st @ [v], nextId := Suc (nextId st)\<rparr>, Inr v))"
proof (cases "joiValidate conv vehicleSchema body")
  case None
  then show ?thesis by (simp add: postVehicle_def)
next
  case (Some v)
  with addVehicle_cases [of st v] show ?thesis by (auto simp: postVehicle_def)
qed


lemma postVehicle_bookings: "bookings (fst (postVehicle conv st body)) = bookings st"
  using postVehicle_cases [of conv st body] by auto


lemma updateVehicleStatus_bookings: "bookings (fst (updateVehicleStatus st i s)) = bookings st"
  by (auto simp: updateVehicleStatus_def split: option.splits)






lemma reachable_run: "reachable conv (foldl (exec conv) emptyStore ops)"
  by (induction ops rule: rev_induct) (auto intro: reachable.intros)


lemma rebookRun_store:
  "foldl (exec noConversion) emptyStore rebookRun =
     \<lparr>vehicles = [testVehicle],
      bookings = [testBooking 1 ''CUST001'' 7200000 Cancelled,
                  testBooking 2 ''CUST002'' 7200000 Confirmed],
      nextId = 3\<rparr>"
  by code_simp








section \<open>Status transitions\<close>

lemma map_bid_updateFirst:
  "map bid (updateFirst P (\<lambda>b. b\<lparr>status := s\<rparr>) bs) = map bid bs"
  by (induction bs) auto


lemma wf_postVehicle: "wfStore st \<Longrightarrow> wfStore (fst (postVehicle conv st body))"
  using postVehicle_cases [of conv st body] by (auto simp: wfStore_def less_Suc_eq)


lemma wf_updateVehicleStatus: "wfStore st \<Longrightarrow> wfStore (fst (updateVehicleStatus st i s))"
  by (auto simp: wfStore_def updateVehicleStatus_def split: option.splits)


lemma wf_status_update:
  assumes wf: "wfStore st"
  shows "wfStore (st\<lparr>bookings := updateFirst P (\<lambda>b. b\<lparr>status := s\<rparr>) (bookings st)\<rparr>)"
proof -
  let ?bs = "updateFirst P (\<lambda>b. b\<lparr>status := s\<rparr>) (bookings st)"
  have m: "map bid ?bs = map bid (bookings st)" by (rule map_bid_updateFirst)
  then have "bid ` set ?bs = bid ` set (bookings st)" by (metis set_map)
  with wf have "\<forall>b \<in> set ?bs. bid b < nextId st"
    unfolding wfStore_def by (metis (no_types, lifting) imageE imageI)
  with wf m show ?thesis by (simp add: wfStore_def)
qed


lemma wf_createBooking:
  assumes wf: "wfStore st"
  shows "wfStore (fst (createBooking now st req))"
proof (cases "snd (createBooking now st req)")
  case (Inl f)
  then have "createBooking now st req = (fst (createBooking now st req), Inl f)"
    by (metis prod.collapse)
  from createBooking_Inl [OF this] wf show ?thesis by simp
next
  case (Inr b)
  then have "createBooking now st req = (fst (createBooking now st req), Inr b)"
    by (metis prod.collapse)
  from createBooking_Inr [OF this] obtain e h c where
    b: "b = newBooking (nextId st) req e h c"
    and st': "fst (createBooking now st req) =
      st\<lparr>bookings := bookings st @ [b], nextId := Suc (nextId st)\<rparr>"
    by blast
  have idb: "bid b = nextId st" by (simp add: b newBooking_def)
  from wf have "bid b \<notin> bid ` set (bookings st)"
    unfolding wfStore_def idb by auto
  with wf idb show ?thesis
    unfolding st' wfStore_def by (auto simp: less_Suc_eq)
qed


lemma wf_updateBookingStatus: "wfStore st \<Longrightarrow> wfStore (fst (updateBookingStatus st i w))"
  by (simp add: updateBookingStatus_def wf_status_update split: option.splits)


lemma wf_cancelBooking: "wfStore st \<Longrightarrow> wfStore (fst (cancelBooking now st i))"
  by (simp add: cancelBooking_def Let_def wf_status_update split: option.splits)


lemma wf_exec: "wfStore st \<Longrightarrow> wfStore (exec conv st op)"
  by (cases op)
     (simp_all add: wf_postVehicle wf_updateVehicleStatus wf_createBooking
        wf_updateBookingStatus wf_cancelBooking)


lemma wf_empty: "wfStore emptyStore"
  by (simp add: wfStore_def emptyStore_def)


lemma reachable_wf: "reachable conv st \<Longrightarrow> wfStore st"
  by (induction rule: reachable.induct) (simp_all add: wf_exec wf_empty)


lemma wf_same_id:
  "wfStore st \<Longrightarrow> b \<in> set (bookings st) \<Longrightarrow> b' \<in> set (bookings st) \<Longrightarrow> bid b' = bid b \<Longrightarrow> b' = b"
  by (auto simp: wfStore_def distinct_map inj_on_def)


lemma status_update_member:
  assumes wf: "wfStore st" and b: "b \<in> set (bookings st)" "status b \<noteq> Confirmed"
    and b': "b' \<in> set (updateFirst (\<lambda>b. bid b = i) (\<lambda>b. b\<lparr>status := s\<rparr>) (bookings st))"
      "bid b' = bid b"
    and s: "s \<noteq> Confirmed"
  shows "status b' \<noteq> Confirmed"
proof (cases "findBookingById (bookings st) i")
  case None
  then have "updateFirst (\<lambda>b. bid b = i) (\<lambda>b. b\<lparr>status := s\<rparr>) (bookings st) = bookings st"
    by (simp add: findBookingById_def updateFirst_none)
  with b' have "b' \<in> set (bookings st)" by simp
  from wf_same_id [OF wf b(1) this b'(2)] b(2) show ?thesis by simp
next
  case (Some x)
  then have "set (updateFirst (\<lambda>b. bid b = i) (\<lambda>b. b\<lparr>status := s\<rparr>) (bookings st))
      \<subseteq> insert (x\<lparr>status := s\<rparr>) (set (bookings st))"
    by (simp add: findBookingById_def set_updateFirst)
  with b' have "b' = x\<lparr>status := s\<rparr> \<or> b' \<in> set (bookings st)" by auto
  then show ?thesis
  proof
    assume "b' = x\<lparr>status := s\<rparr>"
    with s show ?thesis by simp
  next
    assume "b' \<in> set (bookings st)"
    from wf_same_id [OF wf b(1) this b'(2)] b(2) show ?thesis by simp
  qed
qed


lemma parseBookingStatus_confirmed:
  "parseBookingStatus w = Some Confirmed \<longleftrightarrow> w = ''confirmed''"
  by (simp add: parseBookingStatus_def)


text \<open>
  C8, as the code has it. In every reachable store, a request other than a status
  update to \<^verbatim>\<open>confirmed\<close> leaves every booking that is not confirmed not confirmed.
  The status update writes the status it is given on the booking it finds, whatever
  the status was.
\<close>

theorem status_not_back_to_confirmed:
  "(reachable conv st \<and> (\<forall>i. op \<noteq> UpdateBookingStatus i ''confirmed'') \<and>
    b \<in> set (bookings st) \<and> status b \<noteq> Confirmed \<and>
    b' \<in> set (bookings (exec conv st op)) \<and> bid b' = bid b \<longrightarrow> status b' \<noteq> Confirmed) \<and>
   (findBookingById (bookings st) i = Some b \<and> parseBookingStatus w = Some s \<longrightarrow>
      findBookingById (bookings (exec conv st (UpdateBookingStatus i w))) i =
        Some (b\<lparr>status := s\<rparr>))"
proof (intro conjI impI)
  assume a: "reachable conv st \<and> (\<forall>i. op \<noteq> UpdateBookingStatus i ''confirmed'') \<and>
    b \<in> set (bookings st) \<and> status b \<noteq> Confirmed \<and>
    b' \<in> set (bookings (exec conv st op)) \<and> bid b' = bid b"
  then have "reachable conv st" by simp
  then have wf: "wfStore st" by (rule reachable_wf)
  from a have b: "b \<in> set (bookings st)" "status b \<noteq> Confirmed" "bid b' = bid b" by simp_all
  from a have b': "b' \<in> set (bookings (exec conv st op))" by simp
  have same: "status b' \<noteq> Confirmed" if "b' \<in> set (bookings st)"
    using wf_same_id [OF wf b(1) that b(3)] b(2) by simp
  show "status b' \<noteq> Confirmed"
  proof (cases op)
    case (AddVehicle body)
    with b' have "b' \<in> set (bookings st)" by (simp add: postVehicle_bookings)
    then show ?thesis by (rule same)
  next
    case (UpdateVehicleStatus j u)
    with b' have "b' \<in> set (bookings st)" by (simp add: updateVehicleStatus_bookings)
    then show ?thesis by (rule same)
  next
    case (CreateBooking now req)
    show ?thesis
    proof (cases "snd (createBooking now st req)")
      case (Inl f)
      then have "createBooking now st req = (fst (createBooking now st req), Inl f)"
        by (metis prod.collapse)
      from createBooking_Inl [OF this] b' CreateBooking have "b' \<in> set (bookings st)" by simp
      then show ?thesis by (rule same)
    next
      case (Inr nb)
      then have "createBooking now st req = (fst (createBooking now st req), Inr nb)"
        by (metis prod.collapse)
      from createBooking_Inr [OF this] b' CreateBooking
      have "b' \<in> set (bookings st) \<or> bid b' = nextId st"
        by (auto simp: newBooking_def)
      moreover from wf b have "bid b < nextId st" by (simp add: wfStore_def)
      ultimately have "b' \<in> set (bookings st)" using b by auto
      then show ?thesis by (rule same)
    qed
  next
    case (UpdateBookingStatus j u)
    with a have "u \<noteq> ''confirmed''" by auto
    show ?thesis
    proof (cases "parseBookingStatus u")
      case None
      with b' UpdateBookingStatus have "b' \<in> set (bookings st)"
        by (simp add: updateBookingStatus_def)
      then show ?thesis by (rule same)
    next
      case (Some t)
      with \<open>u \<noteq> ''confirmed''\<close> have t: "t \<noteq> Confirmed"
        using parseBookingStatus_confirmed by blast
      show ?thesis
      proof (cases "findBookingById (bookings st) j")
        case None
        with b' UpdateBookingStatus Some have "b' \<in> set (bookings st)"
          by (simp add: updateBookingStatus_def)
        then show ?thesis by (rule same)
      next
        case (Some x)
        with b' UpdateBookingStatus \<open>parseBookingStatus u = Some t\<close>
        have "b' \<in> set (updateFirst (\<lambda>b. bid b = j) (\<lambda>b. b\<lparr>status := t\<rparr>) (bookings st))"
          by (simp add: updateBookingStatus_def)
        from status_update_member [OF wf b(1,2) this b(3) t] show ?thesis .
      qed
    qed
  next
    case (CancelBooking now j)
    show ?thesis
    proof (cases "bookings (exec conv st op) = bookings st")
      case True
      with b' have "b' \<in> set (bookings st)" by simp
      then show ?thesis by (rule same)
    next
      case False
      with b' CancelBooking
      have "b' \<in> set (updateFirst (\<lambda>b. bid b = j) (\<lambda>b. b\<lparr>status := Cancelled\<rparr>) (bookings st))"
        by (auto simp: cancelBooking_def Let_def split: option.splits if_splits)
      from status_update_member [OF wf b(1,2) this b(3)] show ?thesis by simp
    qed
  qed
next
  assume h: "findBookingById (bookings st) i = Some b \<and> parseBookingStatus w = Some s"
  then have f: "List.find (\<lambda>b. bid b = i) (bookings st) = Some b"
    by (simp add: findBookingById_def)
  from find_in_set [OF f] have "bid (b\<lparr>status := s\<rparr>) = i" by simp
  from find_updateFirst [OF f, of "\<lambda>b. b\<lparr>status := s\<rparr>", OF this] h
  show "findBookingById (bookings (exec conv st (UpdateBookingStatus i w))) i =
        Some (b\<lparr>status := s\<rparr>)"
    by (simp add: updateBookingStatus_def findBookingById_def)
qed


text \<open>The cancelled booking of the run above is set to in-progress.\<close>

theorem status_not_back_to_confirmed_witness:
  "reachable noConversion (foldl (exec noConversion) emptyStore rebookRun) \<and>
   testBooking 1 ''CUST001'' 7200000 Cancelled
     \<in> set (bookings (foldl (exec noConversion) emptyStore rebookRun)) \<and>
   testBooking 1 ''CUST001'' 7200000 InProgress
     \<in> set (bookings (exec noConversion (foldl (exec noConversion) emptyStore rebookRun)
               (UpdateBookingStatus 1 ''in-progress''))) \<and>
   status (testBooking 1 ''CUST001'' 7200000 InProgress) \<noteq> Confirmed"
proof -
  let ?S = "foldl (exec noConversion) emptyStore rebookRun"
  let ?b = "testBooking 1 ''CUST001'' 7200000 Cancelled"
  let ?b' = "testBooking 1 ''CUST001'' 7200000 InProgress"
  have r: "reachable noConversion ?S" by (rule reachable_run)
  have m: "?b \<in> set (bookings ?S)" unfolding rebookRun_store by simp
  have "bookings (exec noConversion ?S (UpdateBookingStatus 1 ''in-progress'')) =
      [?b', testBooking 2 ''CUST002'' 7200000 Confirmed]"
    unfolding rebookRun_store by code_simp
  then have m': "?b' \<in> set (bookings (exec noConversion ?S (UpdateBookingStatus 1 ''in-progress'')))"
    by simp
  have o: "\<forall>i. UpdateBookingStatus 1 ''in-progress'' \<noteq> UpdateBookingStatus i ''confirmed''"
    by simp
  have s: "status ?b \<noteq> Confirmed" "bid ?b' = bid ?b" by (simp_all add: testBooking_def)
  from status_not_back_to_confirmed [of noConversion ?S "UpdateBookingStatus 1 ''in-progress''" ?b ?b']
    r o m s m'
  have "status ?b' \<noteq> Confirmed" by blast
  with r m m' show ?thesis by blast
qed


text \<open>
  C8 as stated fails: the status update sets the cancelled booking of that run to
  confirmed.
\<close>

theorem status_update_reconfirms_counterexample:
  "reachable noConversion (foldl (exec noConversion) emptyStore rebookRun) \<and>
   map (\<lambda>b. (bid b, status b)) (bookings (foldl (exec noConversion) emptyStore rebookRun)) =
     [(1, Cancelled), (2, Confirmed)] \<and>
   map (\<lambda>b. (bid b, status b))
     (bookings (exec noConversion (foldl (exec noConversion) emptyStore rebookRun)
        (UpdateBookingStatus 1 ''confirmed''))) =
     [(1, Confirmed), (2, Confirmed)]"
proof -
  have "map (\<lambda>b. (bid b, status b)) (bookings (foldl (exec noConversion) emptyStore rebookRun)) =
     [(1, Cancelled), (2, Confirmed)]"
    unfolding rebookRun_store by code_simp
  moreover have "map (\<lambda>b. (bid b, status b))
     (bookings (exec noConversion (foldl (exec noConversion) emptyStore rebookRun)
        (UpdateBookingStatus 1 ''confirmed''))) =
     [(1, Confirmed), (2, Confirmed)]"
    unfolding rebookRun_store by code_simp
  moreover have "reachable noConversion (foldl (exec noConversion) emptyStore rebookRun)"
    by (rule reachable_run)
  ultimately show ?thesis by blast
qed


section \<open>New vehicles\<close>

lemma map_of_pick: "k \<notin> set keys \<Longrightarrow> map_of (pick keys body) k = None"
  by (auto simp: pick_def map_of_eq_None_iff)


lemma newVehicle_default_status:
  "map_of obj ''status'' = None \<Longrightarrow> newVehicle i obj = Some v \<Longrightarrow> vstatus v = Active"
  unfolding newVehicle_def
  by (auto split: option.splits json.splits if_splits)


lemma postVehicle_test:
  "postVehicle noConversion emptyStore testVehicleBody = (fleetStore, Inr testVehicle)"
  by code_simp


text \<open>
  C10. A vehicle created by \<open>addVehicle\<close>, alone or behind the validator, is active
  and is appended to the fleet, whatever the request body holds: the document is built
  from the name, the capacity and the tyres only.
\<close>

theorem addVehicle_status_active:
  "(addVehicle st body = (st', Inr v) \<longrightarrow> vstatus v = Active \<and> vehicles st' = vehicles st @ [v]) \<and>
   (postVehicle conv st body = (st', Inr v) \<longrightarrow> vstatus v = Active \<and> vehicles st' = vehicles st @ [v])"
proof -
  have add: "vstatus v = Active \<and> vehicles st' = vehicles st @ [v]"
    if "addVehicle st b = (st', Inr v)" for b
  proof -
    from addVehicle_cases [of st b] that
    have nv: "newVehicle (nextId st) (pick [''name'', ''capacityKg'', ''tyres''] b) = Some v"
      and st': "st' = st\<lparr>vehicles := vehicles st @ [v], nextId := Suc (nextId st)\<rparr>"
      by auto
    have "map_of (pick [''name'', ''capacityKg'', ''tyres''] b) ''status'' = None"
      by (rule map_of_pick) simp
    from newVehicle_default_status [OF this nv] st' show ?thesis by simp
  qed
  show ?thesis
    using add by (auto simp: postVehicle_def split: option.splits)
qed


text \<open>The request body of the test vehicle asks for the status \<^verbatim>\<open>retired\<close>.\<close>

theorem addVehicle_status_active_witness:
  "map_of testVehicleBody ''status'' = Some (JString ''retired'') \<and>
   postVehicle noConversion emptyStore testVehicleBody = (fleetStore, Inr testVehicle) \<and>
   vstatus testVehicle = Active \<and> vehicles fleetStore = vehicles emptyStore @ [testVehicle]"
proof -
  have 1: "map_of testVehicleBody ''status'' = Some (JString ''retired'')"
    by (simp add: testVehicleBody_def)
  from addVehicle_status_active [of emptyStore testVehicleBody fleetStore testVehicle noConversion]
    postVehicle_test
  have "vstatus testVehicle = Active \<and> vehicles fleetStore = vehicles emptyStore @ [testVehicle]"
    by blast
  with 1 postVehicle_test show ?thesis by simp
qed


section \<open>Admissions served in turns\<close>

text \<open>Three steps of one task alone are the call of \<open>createBooking\<close>.\<close>

lemma createBooking_steps:
  "runSchedule [(now, 0), (now, 0), (now, 0)] (st, [AtFindById req]) =
     (fst (createBooking now st req), [Finished (snd (createBooking now st req))])"
  unfolding createBooking_def Let_def
  by (auto split: option.splits prod.splits)


text \<open>
  C2. Two requests for the same vehicle and window: served one after the other, the
  second meets the conflict; served in turns, both pass the check before either saves
  and both are admitted.
\<close>

theorem interleaved_admissions_double_book:
  "runSchedule serialSchedule
     (fleetStore,
      [AtFindById (testRequest ''CUST001'' 7200000), AtFindById (testRequest ''CUST002'' 7200000)]) =
     (fleetStore\<lparr>bookings := [testBooking 1 ''CUST001'' 7200000 Confirmed], nextId := 2\<rparr>,
      [Finished (Inr (testBooking 1 ''CUST001'' 7200000 Confirmed)),
       Finished (Inl (Conflict 1))]) \<and>
   runSchedule raceSchedule
     (fleetStore,
      [AtFindById (testRequest ''CUST001'' 7200000), AtFindById (testRequest ''CUST002'' 7200000)]) =
     (fleetStore\<lparr>bookings := [testBooking 1 ''CUST001'' 7200000 Confirmed,
                                 testBooking 2 ''CUST002'' 7200000 Confirmed], nextId := 3\<rparr>,
      [Finished (Inr (testBooking 1 ''CUST001'' 7200000 Confirmed)),
       Finished (Inr (testBooking 2 ''CUST002'' 7200000 Confirmed))])"
  by code_simp


section \<open>The availability search\<close>

lemma availableLoop_eq:
  "availableLoop bs h f t s e vs acc =
     acc @ map (\<lambda>v. \<lparr>vehicle_json = v, durationHours = h, route = (f, t), timeWindow = (s, e)\<rparr>)
             (filter (\<lambda>v. findOverlappingBookings bs (vid v) s e None = []) vs)"
  by (induction vs arbitrary: acc) (simp_all add: Let_def)


lemma parseIntOfNumber_whole: "of_int \<lfloor>x\<rfloor> = x \<Longrightarrow> of_int (parseIntOfNumber x) = x"
  by (smt (verit) parseIntOfNumber_def floor_of_int of_int_minus minus_minus)


text \<open>
  The result of the search where the window is a valid range of dates: the active
  vehicles whose capacity is at least the required capacity cut off to an integer and
  that have no overlapping booking, by ascending capacity, each with the duration, the
  route and the window. For a whole required capacity the cut changes nothing.
\<close>

lemma findAvailableVehicles_result:
  assumes "bookingEndTime s (calculateRideDuration f t) = Some (h, e)"
  shows "\<exists>r. findAvailableVehicles st cap f t s = Inr r \<and>
      set (map vehicle_json r) =
        {v \<in> set (vehicles st). vstatus v = Active \<and>
           of_int (parseIntOfNumber cap) \<le> capacityKg v \<and>
           findOverlappingBookings (bookings st) (vid v) s e None = []} \<and>
      sorted (map (\<lambda>x. capacityKg (vehicle_json x)) r) \<and>
      (\<forall>x \<in> set r. durationHours x = h \<and> route x = (f, t) \<and> timeWindow x = (s, e))"
proof -
  let ?suit = "sort_key capacityKg
      (filter (\<lambda>v. of_int (parseIntOfNumber cap) \<le> capacityKg v \<and> vstatus v = Active)
         (vehicles st))"
  let ?ann = "\<lambda>v. \<lparr>vehicle_json = v, durationHours = h, route = (f, t), timeWindow = (s, e)\<rparr>"
  let ?r = "map ?ann (filter (\<lambda>v. findOverlappingBookings (bookings st) (vid v) s e None = []) ?suit)"
  have res: "findAvailableVehicles st cap f t s = Inr ?r"
    unfolding findAvailableVehicles_def Let_def using assms
    by (simp add: availableLoop_eq)
  have v: "map vehicle_json ?r =
      filter (\<lambda>v. findOverlappingBookings (bookings st) (vid v) s e None = []) ?suit"
    by (simp add: comp_def)
  have "sorted (map capacityKg ?suit)" by (rule sorted_sort_key)
  then have "sorted (map capacityKg (map vehicle_json ?r))"
    unfolding v by (rule sorted_filter)
  then have so: "sorted (map (\<lambda>x. capacityKg (vehicle_json x)) ?r)"
    by (simp add: comp_def)
  have se: "set (map vehicle_json ?r) =
        {v \<in> set (vehicles st). vstatus v = Active \<and>
           of_int (parseIntOfNumber cap) \<le> capacityKg v \<and>
           findOverlappingBookings (bookings st) (vid v) s e None = []}"
    unfolding v by auto
  have an: "\<forall>x \<in> set ?r. durationHours x = h \<and> route x = (f, t) \<and> timeWindow x = (s, e)"
    by auto
  from res se so an show ?thesis by blast
qed


text \<open>
  C6. A search with a required capacity of 1500.5 kg returns the van of 1500 kg: the
  filter compares with \<^verbatim>\<open>parseInt(capacityRequired)\<close>, which is 1500.
\<close>

theorem findAvailableVehicles_truncates_capacity:
  "findAvailableVehicles \<lparr>vehicles = [smallVan], bookings = [], nextId = 1\<rparr>
     (3001 / 2) ''110001'' ''110005'' 7200000 =
     Inr [\<lparr>vehicle_json = smallVan, durationHours = 4, route = (''110001'', ''110005''),
           timeWindow = (7200000, 21600000)\<rparr>] \<and>
   capacityKg smallVan < 3001 / 2"
  by code_simp

end
